theory Spec2Isabelle
  imports Complex_Main
begin

section \<open>Locking-related NETCONF operations (ncclient/operations/lock.py)\<close>

subsection \<open>Data model\<close>

text \<open>
  Modelled from the spec: \<^verbatim>\<open>RaiseMode\<close>, imported from \<^verbatim>\<open>ncclient.operations.rpc\<close>
  (not among the sources); \<^verbatim>\<open>lock.py\<close> uses its three constants \<^verbatim>\<open>NONE\<close>, \<^verbatim>\<open>ERRORS\<close>
  and \<^verbatim>\<open>ALL\<close>, the spec's tri-state escalation policy Suppress, RaiseOnError and
  RaiseAlways.
\<close>

datatype RaiseMode = RaiseMode_NONE | RaiseMode_ERRORS | RaiseMode_ALL

text \<open>
  Modelled from the spec: one \<^verbatim>\<open>rpc-error\<close> of a reply, the spec's Error (its class is in
  \<^verbatim>\<open>rpc.py\<close>); \<^verbatim>\<open>lock.py\<close> reads its \<^verbatim>\<open>tag\<close> and \<^verbatim>\<open>severity\<close>.
\<close>

record rpc_error =
  tag :: string
  severity :: string

text \<open>
  Modelled from the spec: the reply object that \<^verbatim>\<open>_request\<close> returns, the spec's Result
  (its class is in \<^verbatim>\<open>rpc.py\<close>); \<^verbatim>\<open>lock.py\<close> reads \<^verbatim>\<open>ok\<close>, \<^verbatim>\<open>errors\<close>, \<^verbatim>\<open>error\<close>
  and \<^verbatim>\<open>_raw\<close>.
\<close>

record rpc_reply =
  ok :: bool
  errors :: "rpc_error list"
  raw :: string

text \<open>
  Modelled from the spec: the property \<^verbatim>\<open>error\<close> of a reply (\<^verbatim>\<open>rpc.py\<close> is not among
  the sources). The spec's Result says of \<^verbatim>\<open>errors\<close> that its "first element is the primary
  error used for severity checks"; a reply without errors has no primary error.
\<close>

definition error :: "rpc_reply \<Rightarrow> rpc_error option" where
  "error r = (case errors r of [] \<Rightarrow> None | e # _ \<Rightarrow> Some e)"

text \<open>
  Modelled from the spec: the elements built by \<^verbatim>\<open>new_ele\<close> and \<^verbatim>\<open>sub_ele\<close> of
  \<^verbatim>\<open>ncclient.xml_\<close> (not among the sources). The spec's wire message shape: "a lock request
  is a lock element containing a target element whose content names the datastore; an
  unlock request mirrors this".
\<close>

datatype ele = Ele string "ele list"

definition new_ele :: "string \<Rightarrow> ele" where
  "new_ele name = Ele name []"

text \<open>
  \<^verbatim>\<open>sub_ele(sub_ele(node, "target"), target)\<close> on a fresh \<^verbatim>\<open>node\<close>: the node gets the
  child \<^verbatim>\<open>target\<close>, which gets a child named by the datastore.
\<close>

definition sub_ele2 :: "ele \<Rightarrow> string \<Rightarrow> string \<Rightarrow> ele" where
  "sub_ele2 node a b = (case node of Ele n cs \<Rightarrow> Ele n (cs @ [Ele a [Ele b []]]))"

text \<open>
  What the caller of an operation can observe as a raised exception: an \<^verbatim>\<open>RPCError\<close>
  instance of the reply raised as it is (\<^verbatim>\<open>raise self._reply.error\<close>), the aggregate
  \<^verbatim>\<open>RPCError\<close> that the channel builds from the raw reply and all its errors, the
  \<^verbatim>\<open>NameError\<close> of line 78 (\<^verbatim>\<open>lock.py\<close> names \<^verbatim>\<open>RPCError\<close> there, and line 18 imports only
  \<^verbatim>\<open>RaiseMode\<close> and \<^verbatim>\<open>RPC\<close>), the failures of Python itself on a reply without errors
  (\<^verbatim>\<open>errors[0]\<close>, \<^verbatim>\<open>None.severity\<close>, \<^verbatim>\<open>raise None\<close>), and an exception of the caller's
  protected block.
\<close>

datatype exn =
    Raise_error rpc_error
  | Raise_RPCError string "rpc_error list"
  | NameError
  | IndexError
  | AttributeError
  | TypeError
  | BlockError string

text \<open>
  What happens on the session, in order: a request sent by \<^verbatim>\<open>_request\<close> (with the
  \<^verbatim>\<open>_raise_mode\<close> of the operation at that moment), \<^verbatim>\<open>time.sleep(interval)\<close>,
  \<^verbatim>\<open>self._listener.register(self._id, self)\<close> and the two debug log lines.
\<close>

datatype event =
    Send ele RaiseMode
  | Sleep rat
  | Register
  | Debug_blocking
  | Debug_tries int

text \<open>The fields of an \<^verbatim>\<open>RPC\<close> object that \<^verbatim>\<open>lock.py\<close> reads and writes.\<close>

record RPC =
  raise_mode :: RaiseMode
  reply :: "rpc_reply option"

type_synonym device = "nat \<Rightarrow> rpc_reply"

type_synonym state = "RPC \<times> event list"

fun is_Send :: "event \<Rightarrow> bool" where
  "is_Send (Send _ _) = True"
| "is_Send _ = False"

definition sends :: "event list \<Rightarrow> event list" where
  "sends tr = filter is_Send tr"

subsection \<open>The channel\<close>

text \<open>
  Modelled from the spec: the exception that \<^verbatim>\<open>RPC._request\<close> builds from a reply
  (\<^verbatim>\<open>rpc.py\<close>, where \<^verbatim>\<open>RPCError\<close> is defined, is not among the sources). The spec's
  AggregateError is "two or more simultaneous errors in one reply; raised as a single
  composite carrying the full ordered list"; otherwise the single error is raised.
\<close>

definition raise_reply :: "rpc_reply \<Rightarrow> exn" where
  "raise_reply r =
     (let errs = errors r in
      if length errs > 1 then Raise_RPCError (raw r) errs
      else (case error r of None \<Rightarrow> TypeError | Some e \<Rightarrow> Raise_error e))"

text \<open>
  Modelled from the spec: \<^verbatim>\<open>RPC._request\<close> (\<^verbatim>\<open>rpc.py\<close> is not among the sources). The
  spec's RPC Channel is a "synchronous call send(requestBody) -> Result" that "may itself
  raise according to a caller-supplied escalation policy": Suppress never raises,
  RaiseOnError raises "only when primary error severity is error", RaiseAlways raises "for
  any error". The device answers the n-th request of the session with \<open>dev n\<close>; the reply
  is stored in \<^verbatim>\<open>self._reply\<close> and returned.
\<close>

definition RPC_request :: "device \<Rightarrow> ele \<Rightarrow> state \<Rightarrow> (exn + rpc_reply) \<times> state" where
  "RPC_request dev node s =
     (case s of (self, tr) \<Rightarrow>
        let r = dev (length (sends tr));
            s' = (self\<lparr>reply := Some r\<rparr>, tr @ [Send node (raise_mode self)])
        in (case error r of
              None \<Rightarrow> (Inr r, s')
            | Some e \<Rightarrow>
                if raise_mode self = RaiseMode_ALL
                   \<or> (raise_mode self = RaiseMode_ERRORS \<and> severity e = ''error'')
                then (Inl (raise_reply r), s')
                else (Inr r, s')))"

subsection \<open>Lock\<close>

definition DEFAULT_BLOCKING_WAIT :: rat where
  "DEFAULT_BLOCKING_WAIT = 1 / 100"

text \<open>Lines 36-37 and 96-97: the request bodies.\<close>

definition lock_node :: "string \<Rightarrow> ele" where
  "lock_node target = sub_ele2 (new_ele ''lock'') ''target'' target"

definition unlock_node :: "string \<Rightarrow> ele" where
  "unlock_node target = sub_ele2 (new_ele ''unlock'') ''target'' target"

text \<open>
  Lines 66-71, the end of one round of the loop: sleep, re-prime the listener, and log
  every tenth try.
\<close>

definition go_round :: "rat \<Rightarrow> int \<Rightarrow> state \<Rightarrow> state" where
  "go_round interval tries s =
     (case s of (self, tr) \<Rightarrow>
        (self, tr @ [Sleep interval, Register]
                  @ (if tries mod 10 = 0 then [Debug_tries tries] else [])))"

text \<open>
  Lines 46-71, \<^verbatim>\<open>while True\<close>. The loop ends with the last \<^verbatim>\<open>lock_result\<close> at a
  \<^verbatim>\<open>break\<close>, or with an exception: one that \<^verbatim>\<open>_request\<close> raises, or the \<^verbatim>\<open>IndexError\<close> of
  \<^verbatim>\<open>lock_result.errors[0]\<close> on an empty list. A loop that goes round forever is \<open>None\<close>.
\<close>

partial_function (option) lock_loop ::
  "device \<Rightarrow> ele \<Rightarrow> int \<Rightarrow> rat \<Rightarrow> int \<Rightarrow> state \<Rightarrow> ((exn + rpc_reply) \<times> state) option" where
  "lock_loop dev node retries interval tries s =
     (case RPC_request dev node s of
        (Inl e, s1) \<Rightarrow> Some (Inl e, s1)
      | (Inr lock_result, s1) \<Rightarrow>
          if ok lock_result then Some (Inr lock_result, s1)
          else if retries > 0 \<and> tries + 1 > retries then Some (Inr lock_result, s1)
          else (case errors lock_result of
                  [] \<Rightarrow> Some (Inl IndexError, s1)
                | e # _ \<Rightarrow>
                    if tag e \<noteq> ''lock-denied'' then Some (Inr lock_result, s1)
                    else lock_loop dev node retries interval (tries + 1)
                           (go_round interval (tries + 1) s1)))"

declare lock_loop.simps [code]

text \<open>
  Lines 74-83, after the loop: the saved \<^verbatim>\<open>raise_mode_original\<close> decides whether the last
  result is raised or returned. \<^verbatim>\<open>lock_result.error.severity\<close> is only evaluated when the
  saved mode is \<^verbatim>\<open>ERRORS\<close> (\<^verbatim>\<open>or\<close> short-circuits). The errors raised are read from
  \<^verbatim>\<open>self._reply\<close>. Lines 76-80: with two or more errors line 78 evaluates the name
  \<^verbatim>\<open>RPCError\<close>, which \<^verbatim>\<open>lock.py\<close> does not import, and that is a \<^verbatim>\<open>NameError\<close>; otherwise
  line 80 raises \<^verbatim>\<open>self._reply.error\<close>, which is \<^verbatim>\<open>None\<close> for a reply without errors.
\<close>

definition raise_self_reply :: "RPC \<Rightarrow> exn" where
  "raise_self_reply self =
     (case reply self of
        None \<Rightarrow> AttributeError
      | Some r \<Rightarrow>
          (let errors' = errors r in
           if length errors' > 1 then NameError
           else (case error r of None \<Rightarrow> TypeError | Some e \<Rightarrow> Raise_error e)))"

definition after_loop :: "RaiseMode \<Rightarrow> rpc_reply \<Rightarrow> RPC \<Rightarrow> exn + rpc_reply" where
  "after_loop raise_mode_original lock_result self =
     (if \<not> ok lock_result then
        (case raise_mode_original of
           RaiseMode_ALL \<Rightarrow> Inl (raise_self_reply self)
         | RaiseMode_ERRORS \<Rightarrow>
             (case error lock_result of
                None \<Rightarrow> Inl AttributeError
              | Some e \<Rightarrow> if severity e = ''error'' then Inl (raise_self_reply self)
                          else Inr lock_result)
         | RaiseMode_NONE \<Rightarrow> Inr lock_result)
      else Inr lock_result)"

text \<open>\<^verbatim>\<open>Lock.request\<close>, lines 31-83.\<close>

definition Lock_request ::
  "device \<Rightarrow> string \<Rightarrow> bool \<Rightarrow> int \<Rightarrow> rat \<Rightarrow> state \<Rightarrow> ((exn + rpc_reply) \<times> state) option" where
  "Lock_request dev target blocking retries interval s =
     (let node = lock_node target in
      if \<not> blocking then Some (RPC_request dev node s)
      else (case s of (self, tr) \<Rightarrow>
        let raise_mode_original = raise_mode self;
            s0 = (self\<lparr>raise_mode := RaiseMode_NONE\<rparr>, tr @ [Debug_blocking])
        in (case lock_loop dev node retries interval 0 s0 of
              None \<Rightarrow> None
            | Some (Inl e, s1) \<Rightarrow> Some (Inl e, s1)
            | Some (Inr lock_result, s1) \<Rightarrow>
                Some (after_loop raise_mode_original lock_result (fst s1), s1))))"

subsection \<open>Unlock\<close>

text \<open>\<^verbatim>\<open>Unlock.request\<close>, lines 91-98.\<close>

definition Unlock_request :: "device \<Rightarrow> string \<Rightarrow> state \<Rightarrow> (exn + rpc_reply) \<times> state" where
  "Unlock_request dev target s = RPC_request dev (unlock_node target) s"

subsection \<open>LockContext\<close>

text \<open>
  The fields that \<^verbatim>\<open>LockContext.__init__\<close> stores (lines 110-116); the session is the
  trace of events that every operation extends.
\<close>

record LockContext =
  self_target :: string
  self_blocking :: bool
  self_retries :: int
  self_interval :: rat

text \<open>
  \<^verbatim>\<open>Lock(self.session, self.device_handler, raise_mode=RaiseMode.ERRORS)\<close> and the same for
  \<^verbatim>\<open>Unlock\<close>: a fresh operation object with the given mode and no reply yet.
\<close>

definition new_RPC :: "RaiseMode \<Rightarrow> RPC" where
  "new_RPC m = \<lparr>raise_mode = m, reply = None\<rparr>"

text \<open>\<^verbatim>\<open>LockContext.__enter__\<close>, lines 118-124: returns \<^verbatim>\<open>self\<close> unless the lock raises.\<close>

definition LockContext_enter ::
  "device \<Rightarrow> LockContext \<Rightarrow> event list \<Rightarrow> ((exn + LockContext) \<times> event list) option" where
  "LockContext_enter dev self tr =
     (case Lock_request dev (self_target self) (self_blocking self) (self_retries self)
             (self_interval self) (new_RPC RaiseMode_ERRORS, tr) of
        None \<Rightarrow> None
      | Some (Inl e, s1) \<Rightarrow> Some (Inl e, snd s1)
      | Some (Inr _, s1) \<Rightarrow> Some (Inr self, snd s1))"

text \<open>
  \<^verbatim>\<open>LockContext.__exit__\<close>, lines 126-128: whatever \<^verbatim>\<open>*args\<close> it gets (the exception of
  the block, if any), it sends the unlock and returns \<^verbatim>\<open>False\<close> unless the unlock raises.
\<close>

definition LockContext_exit ::
  "device \<Rightarrow> LockContext \<Rightarrow> exn option \<Rightarrow> event list \<Rightarrow> (exn + bool) \<times> event list" where
  "LockContext_exit dev self args tr =
     (case Unlock_request dev (self_target self) (new_RPC RaiseMode_ERRORS, tr) of
        (Inl e, s1) \<Rightarrow> (Inl e, snd s1)
      | (Inr _, s1) \<Rightarrow> (Inr False, snd s1))"

text \<open>
  The protocol by which Python runs \<^verbatim>\<open>with LockContext(...): block\<close>. If \<^verbatim>\<open>__enter__\<close>
  raises, neither the block nor \<^verbatim>\<open>__exit__\<close> runs. Otherwise the block runs and
  \<^verbatim>\<open>__exit__\<close> is called once, with the block's exception if it raised one; an exception
  raised by \<^verbatim>\<open>__exit__\<close> propagates, a true return value swallows the block's exception and
  a false one lets it propagate.
\<close>

type_synonym block = "event list \<Rightarrow> (exn + unit) \<times> event list"

definition with_LockContext ::
  "device \<Rightarrow> LockContext \<Rightarrow> block \<Rightarrow> event list \<Rightarrow> ((exn + unit) \<times> event list) option" where
  "with_LockContext dev ctx body tr =
     (case LockContext_enter dev ctx tr of
        None \<Rightarrow> None
      | Some (Inl e, tr1) \<Rightarrow> Some (Inl e, tr1)
      | Some (Inr self, tr1) \<Rightarrow>
          (case body tr1 of
             (Inl e, tr2) \<Rightarrow>
               (case LockContext_exit dev self (Some e) tr2 of
                  (Inl e', tr3) \<Rightarrow> Some (Inl e', tr3)
                | (Inr suppress, tr3) \<Rightarrow> Some (if suppress then Inr () else Inl e, tr3))
           | (Inr u, tr2) \<Rightarrow>
               (case LockContext_exit dev self None tr2 of
                  (Inl e', tr3) \<Rightarrow> Some (Inl e', tr3)
                | (Inr _, tr3) \<Rightarrow> Some (Inr u, tr3))))"

subsection \<open>Vocabulary of the properties\<close>

text \<open>A reply that is not ok and whose first error has the tag \<^verbatim>\<open>lock-denied\<close>.\<close>

definition lock_denied :: "rpc_reply \<Rightarrow> bool" where
  "lock_denied r = (\<not> ok r \<and> (case errors r of [] \<Rightarrow> False | e # _ \<Rightarrow> tag e = ''lock-denied''))"

text \<open>
  The state after \<open>k\<close> rounds of the loop that each went round again (lines 49 and
  66-71), starting with \<^verbatim>\<open>tries\<close> at the given value.
\<close>

fun rounds :: "device \<Rightarrow> ele \<Rightarrow> rat \<Rightarrow> int \<Rightarrow> nat \<Rightarrow> state \<Rightarrow> state" where
  "rounds dev node interval tries 0 s = s"
| "rounds dev node interval tries (Suc k) s =
     rounds dev node interval (tries + 1) k
       (go_round interval (tries + 1) (snd (RPC_request dev node s)))"

text \<open>Devices and replies for concrete runs: a script of replies, then one reply forever.\<close>

definition scripted :: "rpc_reply list \<Rightarrow> rpc_reply \<Rightarrow> device" where
  "scripted rs d n = (if n < length rs then rs ! n else d)"

definition ok_reply :: rpc_reply where
  "ok_reply = \<lparr>ok = True, errors = [], raw = ''<ok/>''\<rparr>"

definition denied_error :: rpc_error where
  "denied_error = \<lparr>tag = ''lock-denied'', severity = ''error''\<rparr>"

definition denied_warning :: rpc_error where
  "denied_warning = \<lparr>tag = ''lock-denied'', severity = ''warning''\<rparr>"

definition sessions_error :: rpc_error where
  "sessions_error = \<lparr>tag = ''too-many-sessions'', severity = ''error''\<rparr>"

definition failed :: "rpc_error list \<Rightarrow> rpc_reply" where
  "failed es = \<lparr>ok = False, errors = es, raw = ''<rpc-error/>''\<rparr>"

definition candidate_ctx :: "bool \<Rightarrow> int \<Rightarrow> LockContext" where
  "candidate_ctx b n =
     \<lparr>self_target = ''candidate'', self_blocking = b, self_retries = n,
      self_interval = DEFAULT_BLOCKING_WAIT\<rparr>"

definition raising_block :: block where
  "raising_block tr = (Inl (BlockError ''boom''), tr)"

section \<open>Properties\<close>

subsection \<open>One round of the loop\<close>

lemma sends_append: "sends (xs @ ys) = sends xs @ sends ys"
  by (simp add: sends_def)

lemma RPC_request_NONE:
  "raise_mode self = RaiseMode_NONE \<Longrightarrow>
   RPC_request dev node (self, tr) =
     (Inr (dev (length (sends tr))),
      (self\<lparr>reply := Some (dev (length (sends tr)))\<rparr>, tr @ [Send node RaiseMode_NONE]))"
  by (simp add: RPC_request_def Let_def split: option.split)

lemma go_round_fst: "fst (go_round iv t s) = fst s"
  by (simp add: go_round_def split: prod.split)

lemma go_round_sends: "sends (snd (go_round iv t s)) = sends (snd s)"
  by (simp add: go_round_def sends_def split: prod.split)

lemma round_mode:
  "raise_mode (fst s) = RaiseMode_NONE \<Longrightarrow>
   raise_mode (fst (go_round iv t (snd (RPC_request dev node s)))) = RaiseMode_NONE"
  by (cases s) (simp add: RPC_request_NONE go_round_fst)

lemma round_sends:
  "raise_mode (fst s) = RaiseMode_NONE \<Longrightarrow>
   sends (snd (go_round iv t (snd (RPC_request dev node s))))
     = sends (snd s) @ [Send node RaiseMode_NONE]"
  by (cases s) (simp add: RPC_request_NONE go_round_sends, simp add: sends_def)

lemma rounds_mode:
  "raise_mode (fst s) = RaiseMode_NONE \<Longrightarrow>
   raise_mode (fst (rounds dev node iv t k s)) = RaiseMode_NONE"
  by (induction k arbitrary: t s) (simp_all add: round_mode)

lemma rounds_sends:
  "raise_mode (fst s) = RaiseMode_NONE \<Longrightarrow>
   sends (snd (rounds dev node iv t k s)) = sends (snd s) @ replicate k (Send node RaiseMode_NONE)"
proof (induction k arbitrary: t s)
  case 0
  then show ?case by simp
next
  case (Suc k)
  then show ?case
    by (simp add: round_mode round_sends replicate_app_Cons_same)
qed

lemma lock_loop_again:
  assumes "raise_mode (fst s) = RaiseMode_NONE"
    and "lock_denied (dev (length (sends (snd s))))"
    and "\<not> (0 < retries \<and> retries < tries + 1)"
  shows "lock_loop dev node retries iv tries s
         = lock_loop dev node retries iv (tries + 1)
             (go_round iv (tries + 1) (snd (RPC_request dev node s)))"
  using assms
  by (cases s) (subst lock_loop.simps,
      auto simp add: RPC_request_NONE lock_denied_def split: list.splits)

lemma lock_loop_rounds:
  assumes "raise_mode (fst s) = RaiseMode_NONE"
    and "\<forall>j<k. lock_denied (dev (length (sends (snd s)) + j))
               \<and> \<not> (0 < retries \<and> retries < tries + int j + 1)"
  shows "lock_loop dev node retries iv tries s
         = lock_loop dev node retries iv (tries + int k) (rounds dev node iv tries k s)"
  using assms
proof (induction k arbitrary: tries s)
  case 0
  then show ?case by simp
next
  case (Suc k)
  let ?s1 = "go_round iv (tries + 1) (snd (RPC_request dev node s))"
  have d0: "lock_denied (dev (length (sends (snd s))))"
    and b0: "\<not> (0 < retries \<and> retries < tries + 1)"
    using Suc.prems(2) by force+
  have step: "lock_loop dev node retries iv tries s = lock_loop dev node retries iv (tries + 1) ?s1"
    using Suc.prems(1) d0 b0 by (rule lock_loop_again)
  have m1: "raise_mode (fst ?s1) = RaiseMode_NONE"
    by (rule round_mode [OF Suc.prems(1)])
  have n1: "length (sends (snd ?s1)) = Suc (length (sends (snd s)))"
    by (simp add: round_sends [OF Suc.prems(1)])
  have rest: "\<forall>j<k. lock_denied (dev (length (sends (snd ?s1)) + j))
               \<and> \<not> (0 < retries \<and> retries < (tries + 1) + int j + 1)"
  proof (intro allI impI)
    fix j assume "j < k"
    then have "Suc j < Suc k" by simp
    with Suc.prems(2) have "lock_denied (dev (length (sends (snd s)) + Suc j))
               \<and> \<not> (0 < retries \<and> retries < tries + int (Suc j) + 1)" by blast
    then have "lock_denied (dev (Suc (length (sends (snd s))) + j))
               \<and> \<not> (0 < retries \<and> retries < (tries + 1) + int j + 1)"
      by (simp add: algebra_simps)
    then show "lock_denied (dev (length (sends (snd ?s1)) + j))
               \<and> \<not> (0 < retries \<and> retries < (tries + 1) + int j + 1)"
      unfolding n1 .
  qed
  have "lock_loop dev node retries iv (tries + 1) ?s1
        = lock_loop dev node retries iv (tries + 1 + int k) (rounds dev node iv (tries + 1) k ?s1)"
    by (rule Suc.IH [OF m1 rest])
  moreover have "tries + 1 + int k = tries + int (Suc k)" by simp
  ultimately show ?case using step by simp
qed


lemma lock_loop_stop:
  assumes "raise_mode (fst s) = RaiseMode_NONE"
    and "\<not> (lock_denied (dev (length (sends (snd s)))) \<and> \<not> (0 < retries \<and> retries < tries + 1))"
  shows "lock_loop dev node retries iv tries s
         = Some (if ok (dev (length (sends (snd s)))) \<or> (0 < retries \<and> retries < tries + 1)
                    \<or> errors (dev (length (sends (snd s)))) \<noteq> []
                 then Inr (dev (length (sends (snd s)))) else Inl IndexError,
                 snd (RPC_request dev node s))"
  using assms
  by (cases s) (subst lock_loop.simps,
      auto simp add: RPC_request_NONE lock_denied_def split: list.splits)

lemma lock_loop_forever:
  assumes "lock_loop dev node retries iv tries s = Some y"
  shows "raise_mode (fst s) = RaiseMode_NONE \<longrightarrow>
         (\<forall>j. lock_denied (dev (length (sends (snd s)) + j))
              \<and> \<not> (0 < retries \<and> retries < tries + int j + 1)) \<longrightarrow> False"
proof (rule lock_loop.raw_induct [where P = "\<lambda>dev node retries iv tries s y.
         raise_mode (fst s) = RaiseMode_NONE \<longrightarrow>
         (\<forall>j. lock_denied (dev (length (sends (snd s)) + j))
              \<and> \<not> (0 < retries \<and> retries < tries + int j + 1)) \<longrightarrow> False", OF _ assms],
       goal_cases)
  case (1 f dev node retries interval tries s y)
  show ?case
  proof (intro impI)
    assume m: "raise_mode (fst s) = RaiseMode_NONE"
      and all: "\<forall>j. lock_denied (dev (length (sends (snd s)) + j))
              \<and> \<not> (0 < retries \<and> retries < tries + int j + 1)"
    let ?s1 = "go_round interval (tries + 1) (snd (RPC_request dev node s))"
    from all have "lock_denied (dev (length (sends (snd s)) + 0))
              \<and> \<not> (0 < retries \<and> retries < tries + int 0 + 1)" by blast
    then have d0: "lock_denied (dev (length (sends (snd s))))"
      and b0: "\<not> (0 < retries \<and> retries < tries + 1)"
      by simp_all
    have rec: "f dev node retries interval (tries + 1) ?s1 = Some y"
      using 1(2) m d0 b0
      by (cases s) (auto simp add: RPC_request_NONE lock_denied_def split: list.splits)
    have m1: "raise_mode (fst ?s1) = RaiseMode_NONE"
      by (rule round_mode [OF m])
    have n1: "length (sends (snd ?s1)) = Suc (length (sends (snd s)))"
      by (simp add: round_sends [OF m])
    have "\<forall>j. lock_denied (dev (length (sends (snd ?s1)) + j))
              \<and> \<not> (0 < retries \<and> retries < (tries + 1) + int j + 1)"
    proof
      fix j
      from all have "lock_denied (dev (length (sends (snd s)) + Suc j))
              \<and> \<not> (0 < retries \<and> retries < tries + int (Suc j) + 1)" by blast
      then have "lock_denied (dev (Suc (length (sends (snd s))) + j))
              \<and> \<not> (0 < retries \<and> retries < (tries + 1) + int j + 1)"
        by (simp add: algebra_simps)
      then show "lock_denied (dev (length (sends (snd ?s1)) + j))
              \<and> \<not> (0 < retries \<and> retries < (tries + 1) + int j + 1)"
        unfolding n1 .
    qed
    with 1(1) [OF rec] m1 show False by blast
  qed
qed

text \<open>Every run of the loop that ends has a first round that does not go round again.\<close>

lemma lock_loop_Some:
  assumes m: "raise_mode (fst s) = RaiseMode_NONE"
    and run: "lock_loop dev node retries iv tries s = Some (out, s')"
  obtains k where
    "\<forall>j<k. lock_denied (dev (length (sends (snd s)) + j))
           \<and> \<not> (0 < retries \<and> retries < tries + int j + 1)"
    and "\<not> (lock_denied (dev (length (sends (snd s)) + k))
           \<and> \<not> (0 < retries \<and> retries < tries + int k + 1))"
    and "s' = snd (RPC_request dev node (rounds dev node iv tries k s))"
    and "out = (if ok (dev (length (sends (snd s)) + k))
                   \<or> (0 < retries \<and> retries < tries + int k + 1)
                   \<or> errors (dev (length (sends (snd s)) + k)) \<noteq> []
                then Inr (dev (length (sends (snd s)) + k)) else Inl IndexError)"
proof -
  let ?C = "\<lambda>j. lock_denied (dev (length (sends (snd s)) + j))
           \<and> \<not> (0 < retries \<and> retries < tries + int j + 1)"
  have "\<exists>j. \<not> ?C j"
    using lock_loop_forever [OF run] m by blast
  then obtain k where nk: "\<not> ?C k" and least: "\<forall>j<k. ?C j"
    using exists_least_iff [of "\<lambda>j. \<not> ?C j"] by blast
  let ?sk = "rounds dev node iv tries k s"
  have mk: "raise_mode (fst ?sk) = RaiseMode_NONE" by (rule rounds_mode [OF m])
  have nk': "length (sends (snd ?sk)) = length (sends (snd s)) + k"
    by (simp add: rounds_sends [OF m])
  have "lock_loop dev node retries iv tries s = lock_loop dev node retries iv (tries + int k) ?sk"
    using m least by (rule lock_loop_rounds)
  also have "\<dots> = Some (if ok (dev (length (sends (snd ?sk)))) \<or> (0 < retries \<and> retries < tries + int k + 1)
                    \<or> errors (dev (length (sends (snd ?sk)))) \<noteq> []
                 then Inr (dev (length (sends (snd ?sk)))) else Inl IndexError,
                 snd (RPC_request dev node ?sk))"
    using mk nk unfolding nk' [symmetric] by (rule lock_loop_stop)
  finally have "Some (out, s') = Some (if ok (dev (length (sends (snd s)) + k))
                   \<or> (0 < retries \<and> retries < tries + int k + 1)
                   \<or> errors (dev (length (sends (snd s)) + k)) \<noteq> []
                then Inr (dev (length (sends (snd s)) + k)) else Inl IndexError,
                 snd (RPC_request dev node ?sk))"
    using run unfolding nk' by simp
  then show thesis using that [of k] least nk by simp
qed

subsection \<open>The blocking call as a whole\<close>

lemma last_round:
  assumes "raise_mode (fst s) = RaiseMode_NONE"
    and "s' = snd (RPC_request dev node (rounds dev node iv tries k s))"
  shows "raise_mode (fst s') = RaiseMode_NONE"
    and "reply (fst s') = Some (dev (length (sends (snd s)) + k))"
    and "sends (snd s') = sends (snd s) @ replicate (Suc k) (Send node RaiseMode_NONE)"
proof -
  obtain a b where ab: "rounds dev node iv tries k s = (a, b)" by (cases "rounds dev node iv tries k s")
  have ma: "raise_mode a = RaiseMode_NONE"
    using rounds_mode [OF assms(1), of dev node iv tries k] ab by simp
  have sb: "sends b = sends (snd s) @ replicate k (Send node RaiseMode_NONE)"
    using rounds_sends [OF assms(1), of dev node iv tries k] ab by simp
  have s': "s' = (a\<lparr>reply := Some (dev (length (sends b)))\<rparr>, b @ [Send node RaiseMode_NONE])"
    using assms(2) ab by (simp add: RPC_request_NONE [OF ma])
  show "raise_mode (fst s') = RaiseMode_NONE" using s' ma by simp
  show "reply (fst s') = Some (dev (length (sends (snd s)) + k))" using s' sb by simp
  show "sends (snd s') = sends (snd s) @ replicate (Suc k) (Send node RaiseMode_NONE)"
  proof -
    have "sends [Send node RaiseMode_NONE] = [Send node RaiseMode_NONE]" by (simp add: sends_def)
    then have "sends (snd s') = sends (snd s) @ replicate k (Send node RaiseMode_NONE) @ [Send node RaiseMode_NONE]"
      using s' sb by (simp add: sends_append)
    then show ?thesis by (simp add: replicate_append_same)
  qed
qed

lemma Lock_request_blocking_Some:
  assumes run: "Lock_request dev target True retries iv (self, tr) = Some (out, (self', tr'))"
  obtains k where
    "\<forall>j<k. lock_denied (dev (length (sends tr) + j)) \<and> \<not> (0 < retries \<and> retries < int j + 1)"
    and "\<not> (lock_denied (dev (length (sends tr) + k)) \<and> \<not> (0 < retries \<and> retries < int k + 1))"
    and "raise_mode self' = RaiseMode_NONE"
    and "reply self' = Some (dev (length (sends tr) + k))"
    and "sends tr' = sends tr @ replicate (Suc k) (Send (lock_node target) RaiseMode_NONE)"
    and "out = (if ok (dev (length (sends tr) + k)) \<or> (0 < retries \<and> retries < int k + 1)
                   \<or> errors (dev (length (sends tr) + k)) \<noteq> []
                then after_loop (raise_mode self) (dev (length (sends tr) + k)) self'
                else Inl IndexError)"
proof -
  let ?s0 = "(self\<lparr>raise_mode := RaiseMode_NONE\<rparr>, tr @ [Debug_blocking])"
  have m0: "raise_mode (fst ?s0) = RaiseMode_NONE" by simp
  have n0: "length (sends (snd ?s0)) = length (sends tr)" by (simp add: sends_def)
  obtain o1 s1 where loop: "lock_loop dev (lock_node target) retries iv 0 ?s0 = Some (o1, s1)"
    using run by (auto simp add: Lock_request_def Let_def split: option.splits)
  have fin: "(out, (self', tr')) = (case o1 of Inl e \<Rightarrow> (Inl e, s1)
               | Inr r \<Rightarrow> (after_loop (raise_mode self) r (fst s1), s1))"
    using run loop by (auto simp add: Lock_request_def Let_def split: sum.splits)
  then have s1: "s1 = (self', tr')" by (auto split: sum.splits)
  from m0 loop obtain k where
    c: "\<forall>j<k. lock_denied (dev (length (sends (snd ?s0)) + j)) \<and> \<not> (0 < retries \<and> retries < 0 + int j + 1)"
    and st: "\<not> (lock_denied (dev (length (sends (snd ?s0)) + k)) \<and> \<not> (0 < retries \<and> retries < 0 + int k + 1))"
    and s1': "s1 = snd (RPC_request dev (lock_node target) (rounds dev (lock_node target) iv 0 k ?s0))"
    and o1: "o1 = (if ok (dev (length (sends (snd ?s0)) + k)) \<or> (0 < retries \<and> retries < 0 + int k + 1)
                   \<or> errors (dev (length (sends (snd ?s0)) + k)) \<noteq> []
                then Inr (dev (length (sends (snd ?s0)) + k)) else Inl IndexError)"
    by (rule lock_loop_Some)
  note lr = last_round [OF m0 s1']
  show thesis
  proof (rule that [of k])
    show "\<forall>j<k. lock_denied (dev (length (sends tr) + j)) \<and> \<not> (0 < retries \<and> retries < int j + 1)"
      using c unfolding n0 by simp
    show "\<not> (lock_denied (dev (length (sends tr) + k)) \<and> \<not> (0 < retries \<and> retries < int k + 1))"
      using st unfolding n0 by simp
    show "raise_mode self' = RaiseMode_NONE" using lr(1) s1 by simp
    show "reply self' = Some (dev (length (sends tr) + k))" using lr(2) s1 unfolding n0 by simp
    show "sends tr' = sends tr @ replicate (Suc k) (Send (lock_node target) RaiseMode_NONE)"
      using lr(3) s1 by (simp add: sends_append) (simp add: sends_def)
    show "out = (if ok (dev (length (sends tr) + k)) \<or> (0 < retries \<and> retries < int k + 1)
                   \<or> errors (dev (length (sends tr) + k)) \<noteq> []
                then after_loop (raise_mode self) (dev (length (sends tr) + k)) self'
                else Inl IndexError)"
      using fin o1 s1 unfolding n0 by (auto split: if_splits)
  qed
qed

lemma Lock_request_blocking_run:
  assumes c: "\<forall>j<k. lock_denied (dev (length (sends tr) + j)) \<and> \<not> (0 < retries \<and> retries < int j + 1)"
    and st: "\<not> (lock_denied (dev (length (sends tr) + k)) \<and> \<not> (0 < retries \<and> retries < int k + 1))"
  shows "\<exists>out self' tr'. Lock_request dev target True retries iv (self, tr) = Some (out, (self', tr'))"
proof -
  let ?s0 = "(self\<lparr>raise_mode := RaiseMode_NONE\<rparr>, tr @ [Debug_blocking])"
  let ?node = "lock_node target"
  let ?sk = "rounds dev ?node iv 0 k ?s0"
  have m0: "raise_mode (fst ?s0) = RaiseMode_NONE" by simp
  have n0: "length (sends (snd ?s0)) = length (sends tr)" by (simp add: sends_def)
  have c': "\<forall>j<k. lock_denied (dev (length (sends (snd ?s0)) + j)) \<and> \<not> (0 < retries \<and> retries < 0 + int j + 1)"
    using c unfolding n0 by simp
  have mk: "raise_mode (fst ?sk) = RaiseMode_NONE" by (rule rounds_mode [OF m0])
  have nk: "length (sends (snd ?sk)) = length (sends tr) + k"
    using rounds_sends [OF m0, of dev ?node iv 0 k] n0 by simp
  have st': "\<not> (lock_denied (dev (length (sends (snd ?sk)))) \<and> \<not> (0 < retries \<and> retries < (0 + int k) + 1))"
    using st unfolding nk by simp
  have "lock_loop dev ?node retries iv 0 ?s0 = lock_loop dev ?node retries iv (0 + int k) ?sk"
    using m0 c' by (rule lock_loop_rounds)
  also have "\<dots> = Some (if ok (dev (length (sends (snd ?sk)))) \<or> (0 < retries \<and> retries < (0 + int k) + 1)
                    \<or> errors (dev (length (sends (snd ?sk)))) \<noteq> []
                 then Inr (dev (length (sends (snd ?sk)))) else Inl IndexError,
                 snd (RPC_request dev ?node ?sk))"
    using mk st' by (rule lock_loop_stop)
  finally obtain o1 s1 where "lock_loop dev ?node retries iv 0 ?s0 = Some (o1, s1)" by blast
  then show ?thesis
    by (cases s1; cases o1) (simp_all add: Lock_request_def Let_def)
qed

lemma Lock_request_blocking_at:
  assumes c: "\<forall>j<k. lock_denied (dev (length (sends tr) + j)) \<and> \<not> (0 < retries \<and> retries < int j + 1)"
    and st: "\<not> (lock_denied (dev (length (sends tr) + k)) \<and> \<not> (0 < retries \<and> retries < int k + 1))"
  shows "\<exists>out self' tr'.
           Lock_request dev target True retries iv (self, tr) = Some (out, (self', tr'))
           \<and> raise_mode self' = RaiseMode_NONE
           \<and> reply self' = Some (dev (length (sends tr) + k))
           \<and> sends tr' = sends tr @ replicate (Suc k) (Send (lock_node target) RaiseMode_NONE)
           \<and> out = (if ok (dev (length (sends tr) + k)) \<or> (0 < retries \<and> retries < int k + 1)
                        \<or> errors (dev (length (sends tr) + k)) \<noteq> []
                     then after_loop (raise_mode self) (dev (length (sends tr) + k)) self'
                     else Inl IndexError)"
proof -
  from Lock_request_blocking_run [OF c st] obtain out self' tr' where
    run: "Lock_request dev target True retries iv (self, tr) = Some (out, (self', tr'))" by blast
  from run obtain k' where
    ck: "\<forall>j<k'. lock_denied (dev (length (sends tr) + j)) \<and> \<not> (0 < retries \<and> retries < int j + 1)"
    and sk: "\<not> (lock_denied (dev (length (sends tr) + k')) \<and> \<not> (0 < retries \<and> retries < int k' + 1))"
    and mk: "raise_mode self' = RaiseMode_NONE"
    and rk: "reply self' = Some (dev (length (sends tr) + k'))"
    and tk: "sends tr' = sends tr @ replicate (Suc k') (Send (lock_node target) RaiseMode_NONE)"
    and ok: "out = (if ok (dev (length (sends tr) + k')) \<or> (0 < retries \<and> retries < int k' + 1)
                   \<or> errors (dev (length (sends tr) + k')) \<noteq> []
                then after_loop (raise_mode self) (dev (length (sends tr) + k')) self'
                else Inl IndexError)"
    by (rule Lock_request_blocking_Some)
  have "\<not> k < k'" using ck st by blast
  moreover have "\<not> k' < k" using c sk by blast
  ultimately have "k' = k" by simp
  with run mk rk tk ok show ?thesis by blast
qed


subsection \<open>Entering and leaving the scope\<close>

lemma LockContext_enter_self:
  "LockContext_enter dev ctx tr = Some (Inr self, tr1) \<Longrightarrow> self = ctx"
  by (auto simp add: LockContext_enter_def split: option.splits sum.splits prod.splits)

lemma LockContext_exit_once:
  "LockContext_exit dev self args tr
   = (if \<exists>x xs. errors (dev (length (sends tr))) = x # xs \<and> severity x = ''error''
      then Inl (raise_reply (dev (length (sends tr)))) else Inr False,
      tr @ [Send (unlock_node (self_target self)) RaiseMode_ERRORS])"
  by (cases "errors (dev (length (sends tr)))")
     (simp_all add: LockContext_exit_def Unlock_request_def RPC_request_def new_RPC_def
        error_def Let_def)

section \<open>The claims\<close>

text \<open>
  C8: a non-blocking lock call (\<^verbatim>\<open>blocking\<close> false) is exactly one \<^verbatim>\<open>_request\<close> of the
  lock element for the named target: one request is appended to the session whatever the
  reply is, the call's outcome and reply are the channel's own, and the raise mode in
  effect is the operation's own.
\<close>

theorem Lock_request_single_shot:
  "Lock_request dev target False retries iv (self, tr)
     = Some (RPC_request dev (lock_node target) (self, tr))
   \<and> snd (snd (RPC_request dev (lock_node target) (self, tr)))
     = tr @ [Send (Ele ''lock'' [Ele ''target'' [Ele target []]]) (raise_mode self)]
   \<and> reply (fst (snd (RPC_request dev (lock_node target) (self, tr))))
     = Some (dev (length (sends tr)))
   \<and> raise_mode (fst (snd (RPC_request dev (lock_node target) (self, tr)))) = raise_mode self
   \<and> (fst (RPC_request dev (lock_node target) (self, tr)) = Inr (dev (length (sends tr)))
      \<or> fst (RPC_request dev (lock_node target) (self, tr)) = Inl (raise_reply (dev (length (sends tr)))))"
  by (simp add: Lock_request_def RPC_request_def Let_def lock_node_def sub_ele2_def new_ele_def
        split: option.split)

theorem Lock_request_single_shot_witness:
  "Lock_request (scripted [] (failed [denied_error])) ''running'' False 5 DEFAULT_BLOCKING_WAIT
      (new_RPC RaiseMode_NONE, [])
     = Some (Inr (failed [denied_error]),
             (\<lparr>raise_mode = RaiseMode_NONE, reply = Some (failed [denied_error])\<rparr>,
              [Send (Ele ''lock'' [Ele ''target'' [Ele ''running'' []]]) RaiseMode_NONE]))"
  using Lock_request_single_shot [of "scripted [] (failed [denied_error])" "''running''" 5
      DEFAULT_BLOCKING_WAIT "new_RPC RaiseMode_NONE" "[]"]
  by (simp add: RPC_request_def new_RPC_def scripted_def failed_def denied_error_def sends_def
        lock_node_def sub_ele2_def new_ele_def error_def Let_def)

text \<open>
  C2, as the code has it: a blocking lock call saves the caller's mode, overrides the field
  with \<^verbatim>\<open>NONE\<close> and never writes it again. When the call returns or raises, the field is
  \<^verbatim>\<open>NONE\<close>; the saved value, not the field, decides the outcome for the last reply
  (unless the loop has already failed on \<^verbatim>\<open>errors[0]\<close>).
\<close>

theorem Lock_request_blocking_leaves_NONE:
  assumes "Lock_request dev target True retries iv (self, tr) = Some (out, (self', tr'))"
  shows "raise_mode self' = RaiseMode_NONE
         \<and> (\<exists>r. reply self' = Some r
                \<and> (out = after_loop (raise_mode self) r self' \<or> out = Inl IndexError))"
proof -
  from assms obtain k where
    "raise_mode self' = RaiseMode_NONE"
    and "reply self' = Some (dev (length (sends tr) + k))"
    and "out = (if ok (dev (length (sends tr) + k)) \<or> (0 < retries \<and> retries < int k + 1)
                   \<or> errors (dev (length (sends tr) + k)) \<noteq> []
                then after_loop (raise_mode self) (dev (length (sends tr) + k)) self'
                else Inl IndexError)"
    by (rule Lock_request_blocking_Some)
  then show ?thesis by (simp split: if_splits)
qed

theorem Lock_request_blocking_leaves_NONE_witness:
  "raise_mode \<lparr>raise_mode = RaiseMode_NONE, reply = Some (failed [sessions_error])\<rparr> = RaiseMode_NONE
   \<and> (\<exists>r. reply \<lparr>raise_mode = RaiseMode_NONE, reply = Some (failed [sessions_error])\<rparr> = Some r
          \<and> (Inl (Raise_error sessions_error)
                = after_loop (raise_mode (new_RPC RaiseMode_ERRORS)) r
                    \<lparr>raise_mode = RaiseMode_NONE, reply = Some (failed [sessions_error])\<rparr>
              \<or> Inl (Raise_error sessions_error) = (Inl IndexError :: exn + rpc_reply)))"
proof -
  have run: "Lock_request (scripted [failed [denied_error]] (failed [sessions_error])) ''candidate'' True 3
          DEFAULT_BLOCKING_WAIT (new_RPC RaiseMode_ERRORS, [])
        = Some (Inl (Raise_error sessions_error),
                (\<lparr>raise_mode = RaiseMode_NONE, reply = Some (failed [sessions_error])\<rparr>,
                 [Debug_blocking, Send (lock_node ''candidate'') RaiseMode_NONE,
                  Sleep DEFAULT_BLOCKING_WAIT, Register,
                  Send (lock_node ''candidate'') RaiseMode_NONE]))"
    by code_simp
  show ?thesis by (rule Lock_request_blocking_leaves_NONE [OF run])
qed

text \<open>
  The field is not restored: a blocking call on an operation created with \<^verbatim>\<open>ALL\<close>, answered
  with ok at once, leaves the operation with \<^verbatim>\<open>NONE\<close>.
\<close>

theorem Lock_request_mode_not_restored:
  "Lock_request (scripted [] ok_reply) ''candidate'' True 0 DEFAULT_BLOCKING_WAIT
      (\<lparr>raise_mode = RaiseMode_ALL, reply = None\<rparr>, [])
     = Some (Inr ok_reply,
             (\<lparr>raise_mode = RaiseMode_NONE, reply = Some ok_reply\<rparr>,
              [Debug_blocking, Send (lock_node ''candidate'') RaiseMode_NONE]))
   \<and> RaiseMode_NONE \<noteq> RaiseMode_ALL"
  by code_simp

text \<open>
  C3: with \<^verbatim>\<open>retries = N > 0\<close>, a blocking lock call against a device that answers
  every request with a lock-denied reply ends, has sent exactly \<open>N + 1\<close> lock requests,
  and its last reply is not ok; the outcome is what the caller's mode makes of that reply.
\<close>

theorem Lock_request_exhausts_retries:
  assumes "0 < N" and "\<forall>i. lock_denied (dev i)"
  shows "\<exists>out self' tr' r.
           Lock_request dev target True N iv (self, tr) = Some (out, (self', tr'))
           \<and> sends tr' = sends tr @ replicate (nat N + 1) (Send (lock_node target) RaiseMode_NONE)
           \<and> reply self' = Some r \<and> \<not> ok r
           \<and> out = after_loop (raise_mode self) r self'"
proof -
  let ?k = "nat N"
  have c: "\<forall>j<?k. lock_denied (dev (length (sends tr) + j)) \<and> \<not> (0 < N \<and> N < int j + 1)"
    using assms by auto
  have st: "\<not> (lock_denied (dev (length (sends tr) + ?k)) \<and> \<not> (0 < N \<and> N < int ?k + 1))"
    using assms by auto
  from Lock_request_blocking_run [OF c st] obtain out self' tr' where
    run: "Lock_request dev target True N iv (self, tr) = Some (out, (self', tr'))" by blast
  from run obtain k where
    ck: "\<forall>j<k. lock_denied (dev (length (sends tr) + j)) \<and> \<not> (0 < N \<and> N < int j + 1)"
    and sk: "\<not> (lock_denied (dev (length (sends tr) + k)) \<and> \<not> (0 < N \<and> N < int k + 1))"
    and rk: "reply self' = Some (dev (length (sends tr) + k))"
    and tk: "sends tr' = sends tr @ replicate (Suc k) (Send (lock_node target) RaiseMode_NONE)"
    and ok: "out = (if ok (dev (length (sends tr) + k)) \<or> (0 < N \<and> N < int k + 1)
                   \<or> errors (dev (length (sends tr) + k)) \<noteq> []
                then after_loop (raise_mode self) (dev (length (sends tr) + k)) self'
                else Inl IndexError)"
    by (rule Lock_request_blocking_Some)
  have "N < int k + 1" using sk assms by simp
  moreover have "\<not> N < int k"
  proof
    assume "N < int k"
    then have "nat N < k" using assms(1) by linarith
    with ck have "\<not> (0 < N \<and> N < int (nat N) + 1)" by blast
    with assms(1) show False by simp
  qed
  ultimately have k: "k = nat N" by linarith
  have nok: "\<not> ok (dev (length (sends tr) + k))"
    using assms(2) by (simp add: lock_denied_def)
  show ?thesis
    using run rk tk ok nok k \<open>N < int k + 1\<close> assms(1) by simp
qed

theorem Lock_request_exhausts_retries_witness:
  "(0::int) < 2 \<and> (\<forall>i. lock_denied (scripted [] (failed [denied_error]) i))
   \<and> (\<exists>out self' tr' r.
           Lock_request (scripted [] (failed [denied_error])) ''candidate'' True 2
              DEFAULT_BLOCKING_WAIT (new_RPC RaiseMode_NONE, []) = Some (out, (self', tr'))
           \<and> sends tr' = sends [] @ replicate (nat 2 + 1) (Send (lock_node ''candidate'') RaiseMode_NONE)
           \<and> reply self' = Some r \<and> \<not> ok r
           \<and> out = after_loop (raise_mode (new_RPC RaiseMode_NONE)) r self')"
proof -
  have h1: "(0::int) < 2" by simp
  have h2: "\<forall>i. lock_denied (scripted [] (failed [denied_error]) i)"
    by (simp add: lock_denied_def scripted_def failed_def denied_error_def)
  show ?thesis
    using h1 h2 Lock_request_exhausts_retries [OF h1 h2, of "''candidate''" DEFAULT_BLOCKING_WAIT
        "new_RPC RaiseMode_NONE" "[]"]
    by blast
qed

text \<open>
  C4, where the code departs from it: a blocking lock call made under \<^verbatim>\<open>ALL\<close> (or under
  \<^verbatim>\<open>ERRORS\<close> with a first error of severity \<^verbatim>\<open>error\<close>) whose last reply carries two errors
  reaches line 78, which names \<^verbatim>\<open>RPCError\<close>; \<^verbatim>\<open>lock.py\<close> does not import that name, so the
  call raises \<^verbatim>\<open>NameError\<close> and no aggregate. The same reply raises the aggregate, with
  both errors in order, in the non-blocking call, through the channel; a last reply with
  exactly one error raises that error.
\<close>

theorem Lock_request_aggregate_NameError:
  "Lock_request (scripted [] (failed [sessions_error, denied_warning])) ''candidate'' True 1
      DEFAULT_BLOCKING_WAIT (new_RPC RaiseMode_ALL, [])
     = Some (Inl NameError,
             (\<lparr>raise_mode = RaiseMode_NONE,
               reply = Some (failed [sessions_error, denied_warning])\<rparr>,
              [Debug_blocking, Send (lock_node ''candidate'') RaiseMode_NONE]))
   \<and> Lock_request (scripted [] (failed [sessions_error, denied_warning])) ''candidate'' True 1
      DEFAULT_BLOCKING_WAIT (new_RPC RaiseMode_ERRORS, [])
     = Some (Inl NameError,
             (\<lparr>raise_mode = RaiseMode_NONE,
               reply = Some (failed [sessions_error, denied_warning])\<rparr>,
              [Debug_blocking, Send (lock_node ''candidate'') RaiseMode_NONE]))
   \<and> Lock_request (scripted [] (failed [sessions_error, denied_warning])) ''candidate'' False 1
      DEFAULT_BLOCKING_WAIT (new_RPC RaiseMode_ALL, [])
     = Some (Inl (Raise_RPCError ''<rpc-error/>'' [sessions_error, denied_warning]),
             (\<lparr>raise_mode = RaiseMode_ALL,
               reply = Some (failed [sessions_error, denied_warning])\<rparr>,
              [Send (lock_node ''candidate'') RaiseMode_ALL]))
   \<and> Lock_request (scripted [] (failed [sessions_error])) ''candidate'' True 1
      DEFAULT_BLOCKING_WAIT (new_RPC RaiseMode_ALL, [])
     = Some (Inl (Raise_error sessions_error),
             (\<lparr>raise_mode = RaiseMode_NONE, reply = Some (failed [sessions_error])\<rparr>,
              [Debug_blocking, Send (lock_node ''candidate'') RaiseMode_NONE]))"
  by code_simp

text \<open>
  What lines 74-80 do under \<^verbatim>\<open>ALL\<close> in every blocking call whose last reply is not ok: one
  error is raised as it is, two or more end in the \<^verbatim>\<open>NameError\<close>.
\<close>

lemma Lock_request_raise_always_code:
  assumes run: "Lock_request dev target True retries iv (self, tr) = Some (out, (self', tr'))"
    and mode: "raise_mode self = RaiseMode_ALL"
    and last: "reply self' = Some r"
    and nok: "\<not> ok r"
  shows "(\<forall>e. errors r = [e] \<longrightarrow> out = Inl (Raise_error e))
         \<and> (2 \<le> length (errors r) \<longrightarrow> out = Inl NameError)"
proof -
  from run obtain k where
    rk: "reply self' = Some (dev (length (sends tr) + k))"
    and ok: "out = (if ok (dev (length (sends tr) + k)) \<or> (0 < retries \<and> retries < int k + 1)
                   \<or> errors (dev (length (sends tr) + k)) \<noteq> []
                then after_loop (raise_mode self) (dev (length (sends tr) + k)) self'
                else Inl IndexError)"
    by (rule Lock_request_blocking_Some)
  from rk last have r: "dev (length (sends tr) + k) = r" by simp
  have out: "errors r \<noteq> [] \<Longrightarrow> out = Inl (raise_self_reply self')"
    using ok nok mode unfolding r by (simp add: after_loop_def)
  show ?thesis
  proof (intro conjI allI impI)
    fix e assume "errors r = [e]"
    then show "out = Inl (Raise_error e)"
      using out last by (simp add: raise_self_reply_def error_def)
  next
    assume two: "2 \<le> length (errors r)"
    then have "errors r \<noteq> []" by auto
    then have "out = Inl (raise_self_reply self')" by (rule out)
    then show "out = Inl NameError"
      using two last by (simp add: raise_self_reply_def Let_def)
  qed
qed

text \<open>
  C7: a lock call, blocking or not, made under \<^verbatim>\<open>ERRORS\<close> whose last reply is not ok and
  has a first error of severity \<^verbatim>\<open>warning\<close> raises nothing and returns that reply, whatever
  the severities of the other errors are.
\<close>

theorem Lock_request_warning_returned:
  assumes run: "Lock_request dev target blocking retries iv (self, tr) = Some (out, (self', tr'))"
    and mode: "raise_mode self = RaiseMode_ERRORS"
    and last: "reply self' = Some r"
    and nok: "\<not> ok r"
    and prim: "errors r = e # es"
    and warn: "severity e = ''warning''"
  shows "out = Inr r"
proof (cases blocking)
  case True
  with run have "Lock_request dev target True retries iv (self, tr) = Some (out, (self', tr'))"
    by simp
  then obtain k where
    rk: "reply self' = Some (dev (length (sends tr) + k))"
    and ok: "out = (if ok (dev (length (sends tr) + k)) \<or> (0 < retries \<and> retries < int k + 1)
                   \<or> errors (dev (length (sends tr) + k)) \<noteq> []
                then after_loop (raise_mode self) (dev (length (sends tr) + k)) self'
                else Inl IndexError)"
    by (rule Lock_request_blocking_Some)
  from rk last have r: "dev (length (sends tr) + k) = r" by simp
  show ?thesis
    using ok nok mode prim warn unfolding r by (simp add: after_loop_def error_def)
next
  case False
  with run have eq: "RPC_request dev (lock_node target) (self, tr) = (out, (self', tr'))"
    by (simp add: Lock_request_def)
  then have "r = dev (length (sends tr))"
    using last by (auto simp add: RPC_request_def Let_def split: option.splits if_splits)
  then show ?thesis
    using eq mode prim warn
    by (auto simp add: RPC_request_def Let_def error_def split: option.splits if_splits)
qed

theorem Lock_request_warning_returned_witness:
  "(Inr (failed [denied_warning, sessions_error]) :: exn + rpc_reply)
     = Inr (failed [denied_warning, sessions_error])
   \<and> Lock_request (scripted [] (failed [denied_warning, sessions_error])) ''candidate'' True 1
        DEFAULT_BLOCKING_WAIT (new_RPC RaiseMode_ERRORS, [])
     = Some (Inr (failed [denied_warning, sessions_error]),
             (\<lparr>raise_mode = RaiseMode_NONE, reply = Some (failed [denied_warning, sessions_error])\<rparr>,
              [Debug_blocking, Send (lock_node ''candidate'') RaiseMode_NONE,
               Sleep DEFAULT_BLOCKING_WAIT, Register,
               Send (lock_node ''candidate'') RaiseMode_NONE]))"
proof -
  have run: "Lock_request (scripted [] (failed [denied_warning, sessions_error])) ''candidate'' True 1
        DEFAULT_BLOCKING_WAIT (new_RPC RaiseMode_ERRORS, [])
     = Some (Inr (failed [denied_warning, sessions_error]),
             (\<lparr>raise_mode = RaiseMode_NONE, reply = Some (failed [denied_warning, sessions_error])\<rparr>,
              [Debug_blocking, Send (lock_node ''candidate'') RaiseMode_NONE,
               Sleep DEFAULT_BLOCKING_WAIT, Register,
               Send (lock_node ''candidate'') RaiseMode_NONE]))"
    by code_simp
  have mode: "raise_mode (new_RPC RaiseMode_ERRORS) = RaiseMode_ERRORS" by (simp add: new_RPC_def)
  have last: "reply \<lparr>raise_mode = RaiseMode_NONE, reply = Some (failed [denied_warning, sessions_error])\<rparr>
              = Some (failed [denied_warning, sessions_error])" by simp
  have nok: "\<not> ok (failed [denied_warning, sessions_error])" by (simp add: failed_def)
  have prim: "errors (failed [denied_warning, sessions_error]) = denied_warning # [sessions_error]"
    by (simp add: failed_def)
  have warn: "severity denied_warning = ''warning''" by (simp add: denied_warning_def)
  show ?thesis
    using Lock_request_warning_returned [OF run mode last nok prim warn] run by simp
qed

text \<open>
  C6, as the code has it: in a blocking lock call every attempt of the loop, also in a call
  that never returns, is sent from a state whose mode is \<^verbatim>\<open>NONE\<close>, whatever mode the caller
  asked for, and the channel returns its reply and raises nothing. When every reply that is
  not ok carries at least one error, the attempts before the last were lock-denied failures
  that raised nothing, and a call that ends applies the caller's mode once, to the last
  reply.
\<close>

theorem Lock_request_attempts_suppressed:
  "(\<forall>s0 sj.
      s0 = (self\<lparr>raise_mode := RaiseMode_NONE\<rparr>, tr @ [Debug_blocking])
      \<and> sj = rounds dev (lock_node target) iv 0 j s0
      \<and> (\<forall>i<j. lock_denied (dev (length (sends tr) + i))
                 \<and> \<not> (0 < retries \<and> retries < int i + 1))
      \<longrightarrow> lock_loop dev (lock_node target) retries iv 0 s0
            = lock_loop dev (lock_node target) retries iv (int j) sj
          \<and> raise_mode (fst sj) = RaiseMode_NONE
          \<and> fst (RPC_request dev (lock_node target) sj) = Inr (dev (length (sends tr) + j))
          \<and> snd (snd (RPC_request dev (lock_node target) sj))
              = snd sj @ [Send (lock_node target) RaiseMode_NONE])
   \<and> ((\<forall>i. \<not> ok (dev i) \<longrightarrow> errors (dev i) \<noteq> []) \<longrightarrow>
        (\<forall>out self' tr'.
           Lock_request dev target True retries iv (self, tr) = Some (out, (self', tr')) \<longrightarrow>
           (\<exists>k r. sends tr' = sends tr @ replicate (Suc k) (Send (lock_node target) RaiseMode_NONE)
                  \<and> (\<forall>i<k. lock_denied (dev (length (sends tr) + i)))
                  \<and> r = dev (length (sends tr) + k) \<and> reply self' = Some r
                  \<and> out = after_loop (raise_mode self) r self')))"
proof (intro conjI impI allI)
  fix s0 sj
  assume a: "s0 = (self\<lparr>raise_mode := RaiseMode_NONE\<rparr>, tr @ [Debug_blocking])
      \<and> sj = rounds dev (lock_node target) iv 0 j s0
      \<and> (\<forall>i<j. lock_denied (dev (length (sends tr) + i))
                 \<and> \<not> (0 < retries \<and> retries < int i + 1))"
  let ?node = "lock_node target"
  have m0: "raise_mode (fst s0) = RaiseMode_NONE" using a by simp
  have n0: "length (sends (snd s0)) = length (sends tr)" using a by (simp add: sends_def)
  have c: "\<forall>i<j. lock_denied (dev (length (sends (snd s0)) + i))
                 \<and> \<not> (0 < retries \<and> retries < 0 + int i + 1)"
    using a unfolding n0 by simp
  have sj: "sj = rounds dev ?node iv 0 j s0" using a by simp
  have "lock_loop dev ?node retries iv 0 s0 = lock_loop dev ?node retries iv (0 + int j) sj"
    unfolding sj using m0 c by (rule lock_loop_rounds)
  then show "lock_loop dev ?node retries iv 0 s0 = lock_loop dev ?node retries iv (int j) sj"
    by simp
  show mj: "raise_mode (fst sj) = RaiseMode_NONE"
    unfolding sj by (rule rounds_mode [OF m0])
  have nj: "length (sends (snd sj)) = length (sends tr) + j"
    unfolding sj using rounds_sends [OF m0, of dev ?node iv 0 j] n0 by simp
  obtain a1 b1 where ab: "sj = (a1, b1)" by (cases sj)
  have ma: "raise_mode a1 = RaiseMode_NONE" using mj ab by simp
  have req: "RPC_request dev ?node sj
             = (Inr (dev (length (sends b1))),
                (a1\<lparr>reply := Some (dev (length (sends b1)))\<rparr>, b1 @ [Send ?node RaiseMode_NONE]))"
    unfolding ab by (rule RPC_request_NONE [OF ma])
  show "fst (RPC_request dev ?node sj) = Inr (dev (length (sends tr) + j))"
    using req nj ab by simp
  show "snd (snd (RPC_request dev ?node sj)) = snd sj @ [Send ?node RaiseMode_NONE]"
    using req ab by simp
next
  fix out self' tr'
  assume wf: "\<forall>i. \<not> ok (dev i) \<longrightarrow> errors (dev i) \<noteq> []"
    and run: "Lock_request dev target True retries iv (self, tr) = Some (out, (self', tr'))"
  from run obtain k where
    ck: "\<forall>j<k. lock_denied (dev (length (sends tr) + j)) \<and> \<not> (0 < retries \<and> retries < int j + 1)"
    and rk: "reply self' = Some (dev (length (sends tr) + k))"
    and tk: "sends tr' = sends tr @ replicate (Suc k) (Send (lock_node target) RaiseMode_NONE)"
    and ok: "out = (if ok (dev (length (sends tr) + k)) \<or> (0 < retries \<and> retries < int k + 1)
                   \<or> errors (dev (length (sends tr) + k)) \<noteq> []
                then after_loop (raise_mode self) (dev (length (sends tr) + k)) self'
                else Inl IndexError)"
    by (rule Lock_request_blocking_Some)
  from wf have "\<not> ok (dev (length (sends tr) + k)) \<longrightarrow> errors (dev (length (sends tr) + k)) \<noteq> []"
    by blast
  with ok have "out = after_loop (raise_mode self) (dev (length (sends tr) + k)) self'"
    by auto
  with ck rk tk
  show "\<exists>k r. sends tr' = sends tr @ replicate (Suc k) (Send (lock_node target) RaiseMode_NONE)
                  \<and> (\<forall>i<k. lock_denied (dev (length (sends tr) + i)))
                  \<and> r = dev (length (sends tr) + k) \<and> reply self' = Some r
                  \<and> out = after_loop (raise_mode self) r self'"
    by blast
qed

theorem Lock_request_attempts_suppressed_witness:
  "raise_mode (fst (rounds (scripted [failed [denied_error]] (failed [sessions_error]))
                      (lock_node ''candidate'') DEFAULT_BLOCKING_WAIT 0 1
                      ((new_RPC RaiseMode_ALL)\<lparr>raise_mode := RaiseMode_NONE\<rparr>, [] @ [Debug_blocking])))
     = RaiseMode_NONE
   \<and> fst (RPC_request (scripted [failed [denied_error]] (failed [sessions_error]))
            (lock_node ''candidate'')
            (rounds (scripted [failed [denied_error]] (failed [sessions_error]))
               (lock_node ''candidate'') DEFAULT_BLOCKING_WAIT 0 1
               ((new_RPC RaiseMode_ALL)\<lparr>raise_mode := RaiseMode_NONE\<rparr>, [] @ [Debug_blocking])))
     = Inr (failed [sessions_error])
   \<and> lock_denied (scripted [failed [denied_error]] (failed [sessions_error]) 0)
   \<and> sends [Debug_blocking, Send (lock_node ''candidate'') RaiseMode_NONE,
            Sleep DEFAULT_BLOCKING_WAIT, Register,
            Send (lock_node ''candidate'') RaiseMode_NONE]
       = replicate 2 (Send (lock_node ''candidate'') RaiseMode_NONE)
   \<and> (Inl (Raise_error sessions_error) :: exn + rpc_reply)
       = after_loop RaiseMode_ALL (failed [sessions_error])
           \<lparr>raise_mode = RaiseMode_NONE, reply = Some (failed [sessions_error])\<rparr>"
proof -
  let ?dev = "scripted [failed [denied_error]] (failed [sessions_error])"
  let ?tr' = "[Debug_blocking, Send (lock_node ''candidate'') RaiseMode_NONE,
                  Sleep DEFAULT_BLOCKING_WAIT, Register,
                  Send (lock_node ''candidate'') RaiseMode_NONE]"
  let ?self' = "\<lparr>raise_mode = RaiseMode_NONE, reply = Some (failed [sessions_error])\<rparr>"
  let ?s0 = "((new_RPC RaiseMode_ALL)\<lparr>raise_mode := RaiseMode_NONE\<rparr>, [] @ [Debug_blocking])"
  let ?sj = "rounds ?dev (lock_node ''candidate'') DEFAULT_BLOCKING_WAIT 0 1 ?s0"
  note inst = Lock_request_attempts_suppressed [where dev = ?dev and target = "''candidate''"
      and retries = 3 and iv = DEFAULT_BLOCKING_WAIT and self = "new_RPC RaiseMode_ALL"
      and tr = "[]" and j = 1]
  have s0: "sends ([] :: event list) = []" by (simp add: sends_def)
  have den: "\<forall>i<1. lock_denied (?dev (length (sends []) + i)) \<and> \<not> ((0::int) < 3 \<and> 3 < int i + 1)"
    by (simp add: s0 scripted_def failed_def denied_error_def lock_denied_def)
  from inst den have P1: "raise_mode (fst ?sj) = RaiseMode_NONE
      \<and> fst (RPC_request ?dev (lock_node ''candidate'') ?sj) = Inr (?dev (length (sends []) + 1))"
    by blast
  have d1: "?dev (length (sends []) + 1) = failed [sessions_error]"
    by (simp add: s0 scripted_def)
  have wf: "\<forall>i. \<not> ok (?dev i) \<longrightarrow> errors (?dev i) \<noteq> []"
    by (simp add: scripted_def failed_def)
  have run: "Lock_request ?dev ''candidate'' True 3
          DEFAULT_BLOCKING_WAIT (new_RPC RaiseMode_ALL, [])
        = Some (Inl (Raise_error sessions_error), (?self', ?tr'))"
    by code_simp
  from inst wf run obtain k r where
    tk: "sends ?tr' = sends [] @ replicate (Suc k) (Send (lock_node ''candidate'') RaiseMode_NONE)"
    and dk: "\<forall>i<k. lock_denied (?dev (length (sends []) + i))"
    and r: "r = ?dev (length (sends []) + k)" "reply ?self' = Some r"
    and out: "Inl (Raise_error sessions_error) = after_loop (raise_mode (new_RPC RaiseMode_ALL)) r ?self'"
    by blast
  have "length (sends ?tr') = 2" by (simp add: sends_def)
  with tk have k: "k = 1" by (simp add: sends_def)
  from dk k have d0: "lock_denied (?dev 0)" by (simp add: sends_def)
  from r(2) have r': "r = failed [sessions_error]" by simp
  from out have o: "(Inl (Raise_error sessions_error) :: exn + rpc_reply)
       = after_loop RaiseMode_ALL (failed [sessions_error]) ?self'"
    unfolding r' by (simp add: new_RPC_def)
  from tk k have t: "sends ?tr' = replicate 2 (Send (lock_node ''candidate'') RaiseMode_NONE)"
    by (simp add: sends_def numeral_2_eq_2)
  from P1 d0 t o show ?thesis unfolding d1 by blast
qed

text \<open>
  Without that precondition an attempt inside the loop can raise, and the caller's mode is
  then applied to nothing: the caller asks for \<^verbatim>\<open>NONE\<close>, the second reply is not ok and has
  no error, and line 60 raises \<^verbatim>\<open>IndexError\<close>, where \<^verbatim>\<open>NONE\<close> applied to that reply would
  return it.
\<close>

theorem Lock_request_IndexError_inside_loop:
  "Lock_request (scripted [failed [denied_error]] (failed [])) ''candidate'' True 0
      DEFAULT_BLOCKING_WAIT (new_RPC RaiseMode_NONE, [])
     = Some (Inl IndexError,
             (\<lparr>raise_mode = RaiseMode_NONE, reply = Some (failed [])\<rparr>,
              [Debug_blocking, Send (lock_node ''candidate'') RaiseMode_NONE,
               Sleep DEFAULT_BLOCKING_WAIT, Register,
               Send (lock_node ''candidate'') RaiseMode_NONE]))
   \<and> after_loop RaiseMode_NONE (failed [])
        \<lparr>raise_mode = RaiseMode_NONE, reply = Some (failed [])\<rparr> = Inr (failed [])"
  by code_simp

text \<open>
  C5, as the code has it: in a blocking lock call, an attempt that is made and whose reply
  is not ok with a first error tagged otherwise than \<^verbatim>\<open>lock-denied\<close> is the last one: the
  call ends with exactly the requests sent so far, whatever is left of the retries. With
  \<^verbatim>\<open>retries <= 0\<close>, and every reply that is not ok carrying at least one error, a call that
  ends has a last reply that is ok or has a first error tagged otherwise than
  \<^verbatim>\<open>lock-denied\<close>; and against a device that always answers lock-denied the call never
  returns: there is no ceiling on the attempts.
\<close>

theorem Lock_request_loop_exits:
  "((\<forall>j<k. lock_denied (dev (length (sends tr) + j))) \<and> (retries \<le> 0 \<or> int k \<le> retries)
      \<and> \<not> ok (dev (length (sends tr) + k)) \<and> errors (dev (length (sends tr) + k)) = e # es
      \<and> tag e \<noteq> ''lock-denied''
     \<longrightarrow> (\<exists>out self' tr'.
            Lock_request dev target True retries iv (self, tr) = Some (out, (self', tr'))
            \<and> sends tr' = sends tr @ replicate (Suc k) (Send (lock_node target) RaiseMode_NONE)
            \<and> reply self' = Some (dev (length (sends tr) + k))
            \<and> out = after_loop (raise_mode self) (dev (length (sends tr) + k)) self'))
   \<and> (retries \<le> 0 \<and> (\<forall>i. \<not> ok (dev i) \<longrightarrow> errors (dev i) \<noteq> []) \<longrightarrow>
        (\<forall>out self' tr'.
           Lock_request dev target True retries iv (self, tr) = Some (out, (self', tr')) \<longrightarrow>
           (\<exists>r. reply self' = Some r
                \<and> (ok r \<or> (\<exists>x xs. errors r = x # xs \<and> tag x \<noteq> ''lock-denied'')))))
   \<and> (retries \<le> 0 \<and> (\<forall>i. lock_denied (dev i))
        \<longrightarrow> Lock_request dev target True retries iv (self, tr) = None)"
proof (intro conjI impI allI)
  assume a: "(\<forall>j<k. lock_denied (dev (length (sends tr) + j))) \<and> (retries \<le> 0 \<or> int k \<le> retries)
      \<and> \<not> ok (dev (length (sends tr) + k)) \<and> errors (dev (length (sends tr) + k)) = e # es
      \<and> tag e \<noteq> ''lock-denied''"
  have c: "\<forall>j<k. lock_denied (dev (length (sends tr) + j)) \<and> \<not> (0 < retries \<and> retries < int j + 1)"
    using a by auto
  have st: "\<not> (lock_denied (dev (length (sends tr) + k)) \<and> \<not> (0 < retries \<and> retries < int k + 1))"
    using a by (simp add: lock_denied_def)
  from Lock_request_blocking_at [OF c st, of target iv self] a
  show "\<exists>out self' tr'.
            Lock_request dev target True retries iv (self, tr) = Some (out, (self', tr'))
            \<and> sends tr' = sends tr @ replicate (Suc k) (Send (lock_node target) RaiseMode_NONE)
            \<and> reply self' = Some (dev (length (sends tr) + k))
            \<and> out = after_loop (raise_mode self) (dev (length (sends tr) + k)) self'"
    by auto
next
  fix out self' tr'
  assume pre: "retries \<le> 0 \<and> (\<forall>i. \<not> ok (dev i) \<longrightarrow> errors (dev i) \<noteq> [])"
    and run: "Lock_request dev target True retries iv (self, tr) = Some (out, (self', tr'))"
  from run obtain k where
    sk: "\<not> (lock_denied (dev (length (sends tr) + k)) \<and> \<not> (0 < retries \<and> retries < int k + 1))"
    and rk: "reply self' = Some (dev (length (sends tr) + k))"
    by (rule Lock_request_blocking_Some)
  let ?r = "dev (length (sends tr) + k)"
  from sk pre have nd: "\<not> lock_denied ?r" by simp
  have "ok ?r \<or> (\<exists>x xs. errors ?r = x # xs \<and> tag x \<noteq> ''lock-denied'')"
  proof (cases "ok ?r")
    case True
    then show ?thesis by simp
  next
    case False
    with pre have "errors ?r \<noteq> []" by blast
    then obtain x xs where "errors ?r = x # xs" by (cases "errors ?r") auto
    with False nd show ?thesis by (simp add: lock_denied_def)
  qed
  with rk show "\<exists>r. reply self' = Some r
                \<and> (ok r \<or> (\<exists>x xs. errors r = x # xs \<and> tag x \<noteq> ''lock-denied''))"
    by blast
next
  assume a: "retries \<le> 0 \<and> (\<forall>i. lock_denied (dev i))"
  show "Lock_request dev target True retries iv (self, tr) = None"
  proof (rule ccontr)
    assume "Lock_request dev target True retries iv (self, tr) \<noteq> None"
    then obtain out self' tr' where
      run: "Lock_request dev target True retries iv (self, tr) = Some (out, (self', tr'))"
      by auto
    from run obtain k where
      "\<not> (lock_denied (dev (length (sends tr) + k)) \<and> \<not> (0 < retries \<and> retries < int k + 1))"
      by (rule Lock_request_blocking_Some)
    with a show False by simp
  qed
qed

theorem Lock_request_loop_exits_witness:
  "(\<exists>out self' tr'.
      Lock_request (scripted [failed [denied_error], failed [denied_error]] (failed [sessions_error]))
         ''candidate'' True 0 DEFAULT_BLOCKING_WAIT (new_RPC RaiseMode_NONE, [])
        = Some (out, (self', tr'))
      \<and> sends tr' = replicate 3 (Send (lock_node ''candidate'') RaiseMode_NONE)
      \<and> reply self' = Some (failed [sessions_error])
      \<and> out = Inr (failed [sessions_error]))
   \<and> (\<exists>r. Some (failed [sessions_error]) = Some r
          \<and> (ok r \<or> (\<exists>x xs. errors r = x # xs \<and> tag x \<noteq> ''lock-denied'')))
   \<and> Lock_request (scripted [] (failed [denied_error])) ''candidate'' True 0
        DEFAULT_BLOCKING_WAIT (new_RPC RaiseMode_NONE, []) = None"
proof -
  let ?dev = "scripted [failed [denied_error], failed [denied_error]] (failed [sessions_error])"
  let ?den = "scripted [] (failed [denied_error])"
  have h: "(\<forall>j<2. lock_denied (?dev (length (sends []) + j))) \<and> ((0::int) \<le> 0 \<or> int 2 \<le> 0)
      \<and> \<not> ok (?dev (length (sends []) + 2)) \<and> errors (?dev (length (sends []) + 2)) = sessions_error # []
      \<and> tag sessions_error \<noteq> ''lock-denied''"
    by (auto simp add: scripted_def failed_def denied_error_def sessions_error_def lock_denied_def
          sends_def less_Suc_eq numeral_2_eq_2)
  have A: "\<exists>out self' tr'.
            Lock_request ?dev ''candidate'' True 0 DEFAULT_BLOCKING_WAIT (new_RPC RaiseMode_NONE, [])
              = Some (out, (self', tr'))
            \<and> sends tr' = sends [] @ replicate (Suc 2) (Send (lock_node ''candidate'') RaiseMode_NONE)
            \<and> reply self' = Some (?dev (length (sends []) + 2))
            \<and> out = after_loop (raise_mode (new_RPC RaiseMode_NONE)) (?dev (length (sends []) + 2)) self'"
    using Lock_request_loop_exits [where k = 2 and dev = ?dev and tr = "[]" and retries = 0
        and e = sessions_error and es = "[]" and target = "''candidate''"
        and iv = DEFAULT_BLOCKING_WAIT and self = "new_RPC RaiseMode_NONE"] h
    by blast
  have d2: "?dev (length (sends []) + 2) = failed [sessions_error]"
    by (simp add: scripted_def sends_def)
  have al: "\<And>s. after_loop (raise_mode (new_RPC RaiseMode_NONE)) (failed [sessions_error]) s
            = Inr (failed [sessions_error])"
    by (simp add: after_loop_def new_RPC_def)
  have A': "\<exists>out self' tr'.
      Lock_request ?dev ''candidate'' True 0 DEFAULT_BLOCKING_WAIT (new_RPC RaiseMode_NONE, [])
        = Some (out, (self', tr'))
      \<and> sends tr' = replicate 3 (Send (lock_node ''candidate'') RaiseMode_NONE)
      \<and> reply self' = Some (failed [sessions_error])
      \<and> out = Inr (failed [sessions_error])"
    using A unfolding d2 al by (simp add: sends_def numeral_3_eq_3)
  have wf: "(0::int) \<le> 0 \<and> (\<forall>i. \<not> ok (?dev i) \<longrightarrow> errors (?dev i) \<noteq> [])"
    by (auto simp add: scripted_def failed_def less_Suc_eq numeral_2_eq_2)
  have run: "Lock_request ?dev ''candidate'' True 0 DEFAULT_BLOCKING_WAIT (new_RPC RaiseMode_NONE, [])
      = Some (Inr (failed [sessions_error]),
              (\<lparr>raise_mode = RaiseMode_NONE, reply = Some (failed [sessions_error])\<rparr>,
               [Debug_blocking, Send (lock_node ''candidate'') RaiseMode_NONE,
                Sleep DEFAULT_BLOCKING_WAIT, Register,
                Send (lock_node ''candidate'') RaiseMode_NONE,
                Sleep DEFAULT_BLOCKING_WAIT, Register,
                Send (lock_node ''candidate'') RaiseMode_NONE]))"
    by code_simp
  have B: "\<exists>r. Some (failed [sessions_error]) = Some r
          \<and> (ok r \<or> (\<exists>x xs. errors r = x # xs \<and> tag x \<noteq> ''lock-denied''))"
    using Lock_request_loop_exits [where dev = ?dev and tr = "[]" and retries = 0
        and target = "''candidate''" and iv = DEFAULT_BLOCKING_WAIT
        and self = "new_RPC RaiseMode_NONE"] wf run
    by fastforce
  have g: "(0::int) \<le> 0 \<and> (\<forall>i. lock_denied (?den i))"
    by (simp add: scripted_def failed_def denied_error_def lock_denied_def)
  have C: "Lock_request ?den ''candidate'' True 0 DEFAULT_BLOCKING_WAIT (new_RPC RaiseMode_NONE, []) = None"
    using Lock_request_loop_exits [where dev = ?den and tr = "[]" and retries = 0
        and target = "''candidate''" and iv = DEFAULT_BLOCKING_WAIT
        and self = "new_RPC RaiseMode_NONE"] g
    by blast
  from A' B C show ?thesis by blast
qed

text \<open>
  Without that precondition the loop also ends otherwise: with \<^verbatim>\<open>retries = 0\<close>, a second
  reply that is not ok and has no error ends the call with the \<^verbatim>\<open>IndexError\<close> of line 60.
\<close>

theorem Lock_request_loop_exit_IndexError:
  "Lock_request (scripted [failed [denied_error]] (failed [])) ''candidate'' True 0
      DEFAULT_BLOCKING_WAIT (new_RPC RaiseMode_ALL, [])
     = Some (Inl IndexError,
             (\<lparr>raise_mode = RaiseMode_NONE, reply = Some (failed [])\<rparr>,
              [Debug_blocking, Send (lock_node ''candidate'') RaiseMode_NONE,
               Sleep DEFAULT_BLOCKING_WAIT, Register,
               Send (lock_node ''candidate'') RaiseMode_NONE]))
   \<and> \<not> ok (failed []) \<and> errors (failed []) = []"
  by code_simp




text \<open>
  C9, as the code has it: when the scope was entered and the protected block raises,
  \<^verbatim>\<open>__exit__\<close> sends exactly one unlock request for the same target. If that unlock raises
  nothing, \<^verbatim>\<open>__exit__\<close> returns \<^verbatim>\<open>False\<close> and the caller sees the block's exception; if the
  unlock raises (the first error of its reply has severity \<^verbatim>\<open>error\<close>), the caller sees the
  unlock's exception instead.
\<close>

theorem with_LockContext_block_raises:
  assumes enter: "LockContext_enter dev ctx tr = Some (Inr self, tr1)"
    and body: "body tr1 = (Inl e, tr2)"
  shows "with_LockContext dev ctx body tr
         = Some (if \<exists>x xs. errors (dev (length (sends tr2))) = x # xs \<and> severity x = ''error''
                 then Inl (raise_reply (dev (length (sends tr2)))) else Inl e,
                 tr2 @ [Send (unlock_node (self_target ctx)) RaiseMode_ERRORS])"
proof -
  have self: "self = ctx" using enter by (rule LockContext_enter_self)
  show ?thesis
  proof (cases "\<exists>x xs. errors (dev (length (sends tr2))) = x # xs \<and> severity x = ''error''")
    case True
    then show ?thesis
      using enter body unfolding self
      by (simp add: with_LockContext_def LockContext_exit_once)
  next
    case False
    then show ?thesis
      using enter body unfolding self
      by (auto simp add: with_LockContext_def LockContext_exit_once)
  qed
qed

theorem with_LockContext_block_raises_witness:
  "LockContext_enter (scripted [] ok_reply) (candidate_ctx True 2) []
     = Some (Inr (candidate_ctx True 2),
             [Debug_blocking, Send (lock_node ''candidate'') RaiseMode_NONE])
   \<and> raising_block [Debug_blocking, Send (lock_node ''candidate'') RaiseMode_NONE]
     = (Inl (BlockError ''boom''), [Debug_blocking, Send (lock_node ''candidate'') RaiseMode_NONE])
   \<and> with_LockContext (scripted [] ok_reply) (candidate_ctx True 2) raising_block []
     = Some (Inl (BlockError ''boom''),
             [Debug_blocking, Send (lock_node ''candidate'') RaiseMode_NONE,
              Send (unlock_node ''candidate'') RaiseMode_ERRORS])"
proof -
  let ?tr1 = "[Debug_blocking, Send (lock_node ''candidate'') RaiseMode_NONE]"
  have enter: "LockContext_enter (scripted [] ok_reply) (candidate_ctx True 2) []
     = Some (Inr (candidate_ctx True 2), ?tr1)"
    by code_simp
  have body: "raising_block ?tr1 = (Inl (BlockError ''boom''), ?tr1)"
    by (simp add: raising_block_def)
  have "with_LockContext (scripted [] ok_reply) (candidate_ctx True 2) raising_block []
     = Some (Inl (BlockError ''boom''),
             ?tr1 @ [Send (unlock_node (self_target (candidate_ctx True 2))) RaiseMode_ERRORS])"
    using with_LockContext_block_raises [where body = raising_block, OF enter body]
    by (simp add: scripted_def ok_reply_def)
  with enter body show ?thesis by (simp add: candidate_ctx_def)
qed

text \<open>
  The block's exception is not always what the caller sees: the lock succeeds, the block
  raises, and the device answers the unlock with an error of severity \<^verbatim>\<open>error\<close>.
\<close>

theorem with_LockContext_unlock_replaces_exception:
  "LockContext_enter (scripted [ok_reply] (failed [sessions_error])) (candidate_ctx False 0) []
     = Some (Inr (candidate_ctx False 0), [Send (lock_node ''candidate'') RaiseMode_ERRORS])
   \<and> raising_block [Send (lock_node ''candidate'') RaiseMode_ERRORS]
     = (Inl (BlockError ''boom''), [Send (lock_node ''candidate'') RaiseMode_ERRORS])
   \<and> with_LockContext (scripted [ok_reply] (failed [sessions_error])) (candidate_ctx False 0)
        raising_block []
     = Some (Inl (Raise_error sessions_error),
             [Send (lock_node ''candidate'') RaiseMode_ERRORS,
              Send (unlock_node ''candidate'') RaiseMode_ERRORS])
   \<and> Raise_error sessions_error \<noteq> BlockError ''boom''"
  by code_simp

text \<open>
  C1, where the code departs from it: \<^verbatim>\<open>__enter__\<close> creates the lock with
  \<^verbatim>\<open>RaiseMode.ERRORS\<close>, so a lock refused with an error of severity \<^verbatim>\<open>warning\<close> raises
  nothing, blocking or not: \<^verbatim>\<open>__enter__\<close> returns and the protected block runs (here it
  raises its own exception). The docstring of the class says that any \<^verbatim>\<open>rpc-error\<close> is
  raised as an exception.
\<close>

theorem LockContext_enter_warning_not_raised:
  "\<not> ok (failed [denied_warning])
   \<and> LockContext_enter (scripted [] (failed [denied_warning])) (candidate_ctx False 0) []
     = Some (Inr (candidate_ctx False 0), [Send (lock_node ''candidate'') RaiseMode_ERRORS])
   \<and> with_LockContext (scripted [] (failed [denied_warning])) (candidate_ctx False 0)
        raising_block []
     = Some (Inl (BlockError ''boom''),
             [Send (lock_node ''candidate'') RaiseMode_ERRORS,
              Send (unlock_node ''candidate'') RaiseMode_ERRORS])
   \<and> LockContext_enter (scripted [] (failed [denied_warning])) (candidate_ctx True 1) []
     = Some (Inr (candidate_ctx True 1),
             [Debug_blocking, Send (lock_node ''candidate'') RaiseMode_NONE,
              Sleep DEFAULT_BLOCKING_WAIT, Register,
              Send (lock_node ''candidate'') RaiseMode_NONE])"
  by code_simp

end
